theory Spec2Isabelle
  imports Main
begin

section \<open>Python strings and truthiness\<close>

text \<open>
  A Python \<open>str\<close> is a \<^typ>\<open>string\<close>. \<open>s.split(sep)\<close> with a one-character separator
  cuts at every occurrence and keeps empty pieces; \<open>sep.join(xs)\<close> puts the separator
  between the pieces; \<open>s.strip()\<close> removes white space at both ends.
\<close>

fun split_on :: "char \<Rightarrow> string \<Rightarrow> string list" where
  "split_on c [] = [[]]"
| "split_on c (x # xs) =
     (if x = c then [] # split_on c xs
      else (case split_on c xs of
              w # ws \<Rightarrow> (x # w) # ws
            | [] \<Rightarrow> [[x]]))"

fun join :: "string \<Rightarrow> string list \<Rightarrow> string" where
  "join sep [] = []"
| "join sep [x] = x"
| "join sep (x # y # ys) = x @ sep @ join sep (y # ys)"

definition is_space :: "char \<Rightarrow> bool" where
  "is_space c = (c \<in> set [CHR 0x09, CHR 0x0A, CHR 0x0B, CHR 0x0C, CHR 0x0D,
                           CHR 0x1C, CHR 0x1D, CHR 0x1E, CHR 0x1F, CHR 0x20,
                           CHR 0x85, CHR 0xA0])"

definition strip :: "string \<Rightarrow> string" where
  "strip s = rev (dropWhile is_space (rev (dropWhile is_space s)))"

text \<open>Truthiness of an optional string or container: \<open>None\<close> and the empty value are false.\<close>

fun truthy :: "'a list option \<Rightarrow> bool" where
  "truthy None = False"
| "truthy (Some xs) = (xs \<noteq> [])"

section \<open>Regular expressions\<close>

text \<open>
  \<open>TORRENT_REGEX\<close> and \<open>YOUTUBE_REGEX\<close> are compiled patterns imported from
  \<open>core.patterns\<close>; the player only tests whether \<open>match\<close> or \<open>search\<close> finds something.
  A compiled pattern is therefore its matching relation: \<open>rx s i\<close> says that the pattern
  matches in \<open>s\<close> starting at position \<open>i\<close>. \<open>match\<close> tries position 0 only, \<open>search\<close>
  tries every position from 0 to \<open>len(s)\<close>.
\<close>

type_synonym regex = "string \<Rightarrow> nat \<Rightarrow> bool"

definition re_match :: "regex \<Rightarrow> string \<Rightarrow> bool" where
  "re_match rx s = rx s 0"

definition re_search :: "regex \<Rightarrow> string \<Rightarrow> bool" where
  "re_search rx s = list_ex (rx s) [0..<Suc (length s)]"

text \<open>A pattern that is one literal string, for concrete runs.\<close>

definition literal_pattern :: "string \<Rightarrow> regex" where
  "literal_pattern lit = (\<lambda>s i. take (length lit) (drop i s) = lit)"



text \<open>
  \<open>MPV_AV_TIME_PATTERN\<close> is in the module itself:
  \<^verbatim>\<open>AV: ([0-9:]*) / ([0-9:]*) \(([0-9]*)%\)\<close>.
  It is a sequence of literals and capturing groups, each group a greedy star of a
  character class. Matching at a position backtracks over a group from its longest
  run down to the empty one; \<open>search\<close> takes the leftmost position that matches. The
  result is the list of captured groups, \<open>group(1)\<close> first.
\<close>

datatype re_item = Lit string | GroupStar "char \<Rightarrow> bool"

fun first_some :: "'a option list \<Rightarrow> 'a option" where
  "first_some [] = None"
| "first_some (None # xs) = first_some xs"
| "first_some (Some x # xs) = Some x"

fun match_here :: "re_item list \<Rightarrow> string \<Rightarrow> string list option" where
  "match_here [] s = Some []"
| "match_here (Lit l # rs) s =
     (if take (length l) s = l then match_here rs (drop (length l) s) else None)"
| "match_here (GroupStar cls # rs) s =
     first_some
       (map (\<lambda>k. map_option ((#) (take k s)) (match_here rs (drop k s)))
            (rev [0..<Suc (length (takeWhile cls s))]))"

fun regex_search :: "re_item list \<Rightarrow> string \<Rightarrow> string list option" where
  "regex_search rs [] = match_here rs []"
| "regex_search rs (c # t) =
     (case match_here rs (c # t) of
        Some g \<Rightarrow> Some g
      | None \<Rightarrow> regex_search rs t)"

definition is_digit :: "char \<Rightarrow> bool" where
  "is_digit c = (c \<in> set ''0123456789'')"

definition is_digit_or_colon :: "char \<Rightarrow> bool" where
  "is_digit_or_colon c = (c \<in> set ''0123456789:'')"

definition MPV_AV_TIME_PATTERN :: "re_item list" where
  "MPV_AV_TIME_PATTERN =
     [Lit ''AV: '', GroupStar is_digit_or_colon, Lit '' / '', GroupStar is_digit_or_colon,
      Lit '' ('', GroupStar is_digit, Lit ''%)'']"

section \<open>Data carriers and collaborators\<close>

text \<open>
  \<open>PlayerParams\<close>, \<open>PlayerResult\<close> and \<open>MpvConfig\<close> are declared outside this module; the
  records hold the fields the player reads. Optional fields are options, a dict is an
  association list in insertion order.
\<close>

record PlayerParams =
  url :: string
  episode :: string
  syncplay :: bool
  headers :: "(string \<times> string) list option"
  subtitles :: "string list option"
  start_time :: "string option"
  title :: "string option"

record PlayerResult =
  episode :: string
  total_time :: "string option"
  stop_time :: "string option"

text \<open>
  Modelled from the spec: the declaration of \<open>PlayerResult\<close> is not part of this module;
  the spec says that the time fields are optional and that absent fields mean unknown,
  so \<open>PlayerResult(params.episode)\<close> leaves both time fields \<open>None\<close>.
\<close>

definition PlayerResult_of :: "string \<Rightarrow> PlayerResult" where
  "PlayerResult_of ep = \<lparr>episode = ep, total_time = None, stop_time = None\<rparr>"

record MpvConfig =
  args :: "string option"
  pre_args :: "string option"

datatype error = ViuError string

text \<open>
  What the module asks of its surroundings: \<open>detect.is_running_in_termux()\<close>,
  \<open>detect.get_clean_env()\<close>, \<open>shutil.which\<close>, \<open>os.path.expanduser\<close>, the two imported
  patterns, and the text a captured process writes to its standard output.
\<close>

type_synonym argv = "string option list"
type_synonym envmap = "(string \<times> string) list"

record world =
  is_running_in_termux :: bool
  get_clean_env :: envmap
  which :: "string \<Rightarrow> string option"
  expanduser :: "string \<Rightarrow> string"
  TORRENT_REGEX :: regex
  YOUTUBE_REGEX :: regex
  captured_stdout :: "argv \<Rightarrow> string"

text \<open>
  Every call of \<open>subprocess.run\<close> or \<open>subprocess.Popen\<close> is recorded with its command
  and environment. A command token is a \<open>string option\<close> because \<open>self.executable\<close>, which
  may be \<open>None\<close>, is put into command lists.
\<close>

datatype spawn = Run argv envmap | RunCaptured argv envmap | Popen argv envmap

type_synonym outcome = "spawn list \<times> (error + PlayerResult)"

record MpvPlayer =
  config :: MpvConfig
  executable :: "string option"

section \<open>The player\<close>

definition MpvPlayer_init :: "world \<Rightarrow> MpvConfig \<Rightarrow> MpvPlayer" where
  "MpvPlayer_init w cfg = \<lparr>config = cfg, executable = which w ''mpv''\<rparr>"

subsection \<open>Helpers\<close>

definition mpv_config_dir :: "world \<Rightarrow> string" where
  "mpv_config_dir w = expanduser w ''~/.config/mpv''"

definition pre_args_of :: "MpvPlayer \<Rightarrow> string list" where
  "pre_args_of self =
     (if truthy (pre_args (config self))
      then split_on CHR '','' (the (pre_args (config self)))
      else [])"

text \<open>
  \<open>_create_mpv_cli_options\<close> appends to one list, step by step; the loop over the
  subtitles is a left fold that appends one token per path.
\<close>

definition create_mpv_cli_options :: "MpvPlayer \<Rightarrow> PlayerParams \<Rightarrow> string list" where
  "create_mpv_cli_options self params =
     (let mpv_args0 = [];
          mpv_args1 =
            (if truthy (headers params)
             then mpv_args0 @
                  [''--http-header-fields='' @
                   join '','' (map (\<lambda>(k, v). k @ '':'' @ v) (the (headers params)))]
             else mpv_args0);
          mpv_args2 =
            (if truthy (subtitles params)
             then foldl (\<lambda>acc sub. acc @ [''--sub-file='' @ sub]) mpv_args1
                        (the (subtitles params))
             else mpv_args1);
          mpv_args3 =
            (if truthy (start_time params)
             then mpv_args2 @ [''--start='' @ the (start_time params)]
             else mpv_args2);
          mpv_args4 =
            (if truthy (title params)
             then mpv_args3 @ [''--title='' @ the (title params)]
             else mpv_args3);
          mpv_args5 =
            (if truthy (args (config self))
             then mpv_args4 @ split_on CHR '','' (the (args (config self)))
             else mpv_args4)
      in mpv_args5)"

definition base_mpv_args :: "world \<Rightarrow> MpvPlayer \<Rightarrow> PlayerParams \<Rightarrow> argv" where
  "base_mpv_args w self params =
     [executable self, Some (''--config-dir='' @ mpv_config_dir w), Some (url params)]
     @ map Some (create_mpv_cli_options self params)"

subsection \<open>Mobile\<close>

definition play_on_mobile :: "world \<Rightarrow> PlayerParams \<Rightarrow> outcome" where
  "play_on_mobile w params =
     (let cmd =
            (if re_match (YOUTUBE_REGEX w) (url params)
             then [''nohup'', ''am'', ''start'', ''--user'', ''0'', ''-a'',
                   ''android.intent.action.VIEW'', ''-d'', url params, ''-n'',
                   ''com.google.android.youtube/.UrlActivity'']
             else [''nohup'', ''am'', ''start'', ''--user'', ''0'', ''-a'',
                   ''android.intent.action.VIEW'', ''-d'', url params, ''-n'',
                   ''is.xyz.mpv/.MPVActivity''])
      in ([Run (map Some cmd) (get_clean_env w)],
          Inr (PlayerResult_of (PlayerParams.episode params))))"

subsection \<open>Desktop\<close>

text \<open>
  The loop over the reversed output lines: the first line in which the pattern is
  found sets both times and ends the loop. The pair is \<open>(stop_time, total_time)\<close>.
\<close>

fun scan_lines :: "string list \<Rightarrow> string option \<times> string option" where
  "scan_lines [] = (None, None)"
| "scan_lines (line # rest) =
     (case regex_search MPV_AV_TIME_PATTERN (strip line) of
        Some g \<Rightarrow> (Some (g ! 0), Some (g ! 1))
      | None \<Rightarrow> scan_lines rest)"

definition parse_av_time :: "string \<Rightarrow> string option \<times> string option" where
  "parse_av_time out =
     (if out \<noteq> [] then scan_lines (rev (split_on CHR 0x0A out)) else (None, None))"

definition stream_on_desktop_with_subprocess ::
  "world \<Rightarrow> MpvPlayer \<Rightarrow> PlayerParams \<Rightarrow> outcome" where
  "stream_on_desktop_with_subprocess w self params =
     (let mpv_args = base_mpv_args w self params;
          cmd = map Some (pre_args_of self) @ mpv_args;
          out = captured_stdout w cmd;
          (stop, total) = parse_av_time out
      in ([RunCaptured cmd (get_clean_env w)],
          Inr \<lparr>episode = PlayerParams.episode params, total_time = total,
               stop_time = stop\<rparr>))"

definition play_with_ipc :: "world \<Rightarrow> MpvPlayer \<Rightarrow> PlayerParams \<Rightarrow> string \<Rightarrow> spawn" where
  "play_with_ipc w self params socket_path =
     (let mpv_args =
            [executable self,
             Some (''--input-ipc-server='' @ socket_path),
             Some ''--idle=yes'',
             Some ''--force-window=yes'',
             Some (''--config-dir='' @ mpv_config_dir w),
             Some (url params)]
            @ map Some (create_mpv_cli_options self params)
      in Popen (map Some (pre_args_of self) @ mpv_args) (get_clean_env w))"

definition stream_on_desktop_with_webtorrent_cli ::
  "world \<Rightarrow> MpvPlayer \<Rightarrow> PlayerParams \<Rightarrow> outcome" where
  "stream_on_desktop_with_webtorrent_cli w self params =
     (let webtorrent = which w ''webtorrent''
      in if \<not> truthy webtorrent then ([], Inl (ViuError ''Please install webtorrent-cli''))
         else
           (let args0 = [webtorrent, Some (url params), Some ''--mpv''];
                mpv_args = create_mpv_cli_options self params;
                args1 = (if mpv_args \<noteq> []
                         then (args0 @ [Some ''--player-args'']) @ map Some mpv_args
                         else args0)
            in ([Run args1 (get_clean_env w)],
                Inr (PlayerResult_of (PlayerParams.episode params)))))"

definition stream_on_desktop_with_syncplay ::
  "world \<Rightarrow> MpvPlayer \<Rightarrow> PlayerParams \<Rightarrow> outcome" where
  "stream_on_desktop_with_syncplay w self params =
     (let syncplay_exe = which w ''syncplay''
      in if \<not> truthy syncplay_exe then ([], Inl (ViuError ''Please install syncplay''))
         else
           (let args0 = [syncplay_exe, Some (url params)];
                mpv_args = base_mpv_args w self params;
                args1 = (if mpv_args \<noteq> []
                         then (args0 @ [Some ''--'']) @ mpv_args
                         else args0)
            in ([Run args1 (get_clean_env w)],
                Inr (PlayerResult_of (PlayerParams.episode params)))))"

definition play_on_desktop :: "world \<Rightarrow> MpvPlayer \<Rightarrow> PlayerParams \<Rightarrow> outcome" where
  "play_on_desktop w self params =
     (if \<not> truthy (executable self)
      then ([], Inl (ViuError ''MPV executable not found in PATH.''))
      else if re_search (TORRENT_REGEX w) (url params)
      then stream_on_desktop_with_webtorrent_cli w self params
      else if syncplay params
      then stream_on_desktop_with_syncplay w self params
      else stream_on_desktop_with_subprocess w self params)"

subsection \<open>Public entry point\<close>

definition play :: "world \<Rightarrow> MpvPlayer \<Rightarrow> PlayerParams \<Rightarrow> outcome" where
  "play w self params =
     (if re_match (TORRENT_REGEX w) (url params) \<and> is_running_in_termux w
      then ([], Inl (ViuError ''Unable to play torrents on termux''))
      else if syncplay params \<and> is_running_in_termux w
      then ([], Inl (ViuError ''Unable to play with syncplay on termux''))
      else if is_running_in_termux w
      then play_on_mobile w params
      else play_on_desktop w self params)"

section \<open>Notions for stating the parser's behaviour\<close>

text \<open>
  One pass of the loop body on a line: whether the pattern is found in the stripped
  line, and the pair of times the loop would then keep.
\<close>

definition line_matches :: "string \<Rightarrow> bool" where
  "line_matches line = (regex_search MPV_AV_TIME_PATTERN (strip line) \<noteq> None)"

definition times_of_line :: "string \<Rightarrow> string option \<times> string option" where
  "times_of_line line =
     (case regex_search MPV_AV_TIME_PATTERN (strip line) of
        Some g \<Rightarrow> (Some (g ! 0), Some (g ! 1))
      | None \<Rightarrow> (None, None))"

text \<open>
  The marker as the specification words it: somewhere in the line stands
  \<open>AV: <elapsed> / <total> (<percent>%)\<close>, where elapsed and total consist of digits
  and colons and percent of digits.
\<close>

definition contains_marker :: "string \<Rightarrow> bool" where
  "contains_marker line =
     (\<exists>pre e t p post.
        line = pre @ ''AV: '' @ e @ '' / '' @ t @ '' ('' @ p @ ''%)'' @ post \<and>
        list_all is_digit_or_colon e \<and> list_all is_digit_or_colon t \<and> list_all is_digit p)"

text \<open>
  The text that a match with captured groups \<open>gs\<close> covers, and whether the groups are
  admissible for the pattern (one per group item, each within its character class).
\<close>

fun render :: "re_item list \<Rightarrow> string list \<Rightarrow> string" where
  "render [] gs = []"
| "render (Lit l # rs) gs = l @ render rs gs"
| "render (GroupStar cls # rs) [] = []"
| "render (GroupStar cls # rs) (g # gs) = g @ render rs gs"

fun groups_ok :: "re_item list \<Rightarrow> string list \<Rightarrow> bool" where
  "groups_ok [] gs = (gs = [])"
| "groups_ok (Lit l # rs) gs = groups_ok rs gs"
| "groups_ok (GroupStar cls # rs) [] = False"
| "groups_ok (GroupStar cls # rs) (g # gs) = (list_all cls g \<and> groups_ok rs gs)"

section \<open>Concrete surroundings for test runs\<close>

text \<open>
  A world in which the listed tools are installed under \<open>/usr/bin\<close>, the home directory
  is \<open>/home/u\<close>, the torrent pattern is the literal \<open>magnet:\<close>, the video-hosting pattern
  the literal \<open>https://youtu.be/\<close>, and every captured process prints \<open>out\<close>.
\<close>

definition sample_which :: "string list \<Rightarrow> string \<Rightarrow> string option" where
  "sample_which installed name =
     (if name \<in> set installed then Some (''/usr/bin/'' @ name) else None)"

definition sample_world :: "bool \<Rightarrow> string list \<Rightarrow> string \<Rightarrow> world" where
  "sample_world mobile installed out =
     \<lparr>is_running_in_termux = mobile,
      get_clean_env = [(''PATH'', ''/usr/bin'')],
      which = sample_which installed,
      expanduser = (\<lambda>p. ''/home/u'' @ drop 1 p),
      TORRENT_REGEX = literal_pattern ''magnet:'',
      YOUTUBE_REGEX = literal_pattern ''https://youtu.be/'',
      captured_stdout = (\<lambda>cmd. out)\<rparr>"

definition sample_config :: MpvConfig where
  "sample_config = \<lparr>args = Some ''--fs,--no-terminal'', pre_args = None\<rparr>"

definition bare_config :: MpvConfig where
  "bare_config = \<lparr>args = None, pre_args = None\<rparr>"

definition rich_params :: "string \<Rightarrow> bool \<Rightarrow> PlayerParams" where
  "rich_params u sync =
     \<lparr>url = u, episode = ''7'', syncplay = sync,
      headers = Some [(''Referer'', ''https://a.example''), (''User-Agent'', ''viu'')],
      subtitles = Some [''en.srt'', ''de.srt''],
      start_time = Some ''00:01:30'',
      title = Some ''Episode 7''\<rparr>"

definition bare_params :: "string \<Rightarrow> bool \<Rightarrow> PlayerParams" where
  "bare_params u sync =
     \<lparr>url = u, episode = ''7'', syncplay = sync, headers = None, subtitles = None,
      start_time = None, title = None\<rparr>"

definition sample_output :: string where
  "sample_output =
     ''AV: 00:01:00 / 00:10:00 (10%)'' @ [CHR 0x0A] @
     ''AV: 00:02:30 / 00:10:00 (25%)'' @ [CHR 0x0A] @
     ''Exiting... (Quit)'' @ [CHR 0x0A]"

lemmas sample_defs = sample_which_def sample_world_def sample_config_def bare_config_def
  rich_params_def bare_params_def literal_pattern_def re_match_def re_search_def
  MpvPlayer_init_def

section \<open>Auxiliary facts\<close>

lemma foldl_append_each: "foldl (\<lambda>acc x. acc @ [f x]) acc xs = acc @ map f xs"
  by (induction xs arbitrary: acc) simp_all

lemma split_on_nonempty: "split_on c s \<noteq> []"
  by (induction s) (auto split: list.splits)

lemma join_split_on: "join [c] (split_on c s) = s"
proof (induction s)
  case Nil
  show ?case by simp
next
  case (Cons x xs)
  then show ?case
    by (cases "split_on c xs"; cases "tl (split_on c xs)") (auto split: list.splits)
qed


lemma base_mpv_args_nonempty: "base_mpv_args w self params \<noteq> []"
  by (simp add: base_mpv_args_def)

subsection \<open>The two tests of the torrent pattern\<close>






subsection \<open>The pattern matcher\<close>

lemma first_some_SomeD:
  "first_some xs = Some y \<Longrightarrow> Some y \<in> set xs"
  by (induction xs rule: first_some.induct) auto

lemma first_some_neq_None:
  "Some y \<in> set xs \<Longrightarrow> first_some xs \<noteq> None"
  by (induction xs rule: first_some.induct) auto

lemma first_some_map_SomeD:
  "first_some (map f xs) = Some y \<Longrightarrow> \<exists>x\<in>set xs. f x = Some y"
  by (drule first_some_SomeD) auto

lemma take_le_takeWhile:
  "k \<le> length (takeWhile P s) \<Longrightarrow> list_all P (take k s)"
  by (induction s arbitrary: k) (auto simp: take_Cons split: nat.splits if_splits)

lemma match_here_sound:
  "match_here rs s = Some gs \<Longrightarrow> groups_ok rs gs \<and> (\<exists>post. s = render rs gs @ post)"
proof (induction rs s arbitrary: gs rule: match_here.induct)
  case (1 s)
  then show ?case by simp
next
  case (2 l rs s)
  from "2.prems" have t: "take (length l) s = l"
    and m: "match_here rs (drop (length l) s) = Some gs"
    by (auto split: if_splits)
  from "2.IH" [OF t m] obtain post where ok: "groups_ok rs gs"
    and d: "drop (length l) s = render rs gs @ post" by blast
  have "s = take (length l) s @ drop (length l) s" by simp
  then have "s = l @ render rs gs @ post" using t d by simp
  then show ?case using ok by simp
next
  case (3 cls rs s)
  let ?ks = "rev [0..<Suc (length (takeWhile cls s))]"
  from first_some_map_SomeD [OF "3.prems" [unfolded match_here.simps]]
  obtain k where k: "k \<in> set ?ks"
    and e: "map_option ((#) (take k s)) (match_here rs (drop k s)) = Some gs"
    by blast
  from e obtain gs' where gs: "gs = take k s # gs'"
    and m: "match_here rs (drop k s) = Some gs'"
    by (auto simp: map_option_eq_Some)
  from "3.IH" [OF k m] obtain post where ok: "groups_ok rs gs'"
    and d: "drop k s = render rs gs' @ post" by blast
  from k have "k \<le> length (takeWhile cls s)" by auto
  then have cl: "list_all cls (take k s)" by (rule take_le_takeWhile)
  have "s = take k s @ drop k s" by simp
  then have "s = take k s @ render rs gs' @ post" using d by simp
  then show ?case using ok cl gs by auto
qed

lemma match_here_complete:
  "groups_ok rs gs \<Longrightarrow> match_here rs (render rs gs @ post) \<noteq> None"
proof (induction rs gs rule: groups_ok.induct)
  case (1 gs)
  then show ?case by simp
next
  case (2 l rs gs)
  then show ?case by simp
next
  case (3 cls rs)
  then show ?case by simp
next
  case (4 cls rs g gs)
  let ?s = "g @ render rs gs @ post"
  let ?f = "\<lambda>k. map_option ((#) (take k ?s)) (match_here rs (drop k ?s))"
  from "4.prems" have g: "list_all cls g" and ok: "groups_ok rs gs" by simp_all
  from "4.IH" [OF ok] obtain gs' where m: "match_here rs (render rs gs @ post) = Some gs'"
    by auto
  have "takeWhile cls ?s = g @ takeWhile cls (render rs gs @ post)"
    using g by (simp add: list_all_iff takeWhile_append2)
  then have "length g \<in> set (rev [0..<Suc (length (takeWhile cls ?s))])" by simp
  moreover have "?f (length g) = Some (g # gs')" using m by simp
  ultimately have "Some (g # gs') \<in> set (map ?f (rev [0..<Suc (length (takeWhile cls ?s))]))"
    by (metis (no_types, lifting) image_eqI set_map)
  then have "first_some (map ?f (rev [0..<Suc (length (takeWhile cls ?s))])) \<noteq> None"
    by (rule first_some_neq_None)
  then show ?case by simp
qed

lemma regex_search_sound:
  "regex_search rs s = Some gs \<Longrightarrow>
     groups_ok rs gs \<and> (\<exists>pre post. s = pre @ render rs gs @ post)"
proof (induction s)
  case Nil
  then show ?case using match_here_sound [of rs "[]" gs] by auto
next
  case (Cons c t)
  show ?case
  proof (cases "match_here rs (c # t)")
    case None
    with Cons.prems have "regex_search rs t = Some gs" by simp
    from Cons.IH [OF this] obtain pre post where "groups_ok rs gs"
      and "t = pre @ render rs gs @ post" by blast
    then have "groups_ok rs gs \<and> c # t = (c # pre) @ render rs gs @ post" by simp
    then show ?thesis by blast
  next
    case (Some g)
    with Cons.prems have "match_here rs (c # t) = Some gs" by simp
    from match_here_sound [OF this] show ?thesis by (metis append_Nil)
  qed
qed

lemma regex_search_complete:
  "groups_ok rs gs \<Longrightarrow> regex_search rs (pre @ render rs gs @ post) \<noteq> None"
proof (induction pre)
  case Nil
  from match_here_complete [OF Nil, of post] show ?case
    by (cases "render rs gs @ post") auto
next
  case (Cons c pre)
  from Cons.IH [OF Cons.prems] show ?case by (auto split: option.splits)
qed

subsection \<open>The progress marker\<close>

lemma groups_ok_av:
  "groups_ok MPV_AV_TIME_PATTERN gs \<longleftrightarrow>
     (\<exists>e t p. gs = [e, t, p] \<and> list_all is_digit_or_colon e \<and>
        list_all is_digit_or_colon t \<and> list_all is_digit p)"
proof (cases gs)
  case Nil
  then show ?thesis by (simp add: MPV_AV_TIME_PATTERN_def)
next
  case c1: (Cons e g1)
  show ?thesis
  proof (cases g1)
    case Nil
    then show ?thesis using c1 by (simp add: MPV_AV_TIME_PATTERN_def)
  next
    case c2: (Cons t g2)
    show ?thesis
    proof (cases g2)
      case Nil
      then show ?thesis using c1 c2 by (simp add: MPV_AV_TIME_PATTERN_def)
    next
      case c3: (Cons p g3)
      then show ?thesis using c1 c2 by (auto simp add: MPV_AV_TIME_PATTERN_def)
    qed
  qed
qed

lemma render_av:
  "render MPV_AV_TIME_PATTERN [e, t, p] = ''AV: '' @ e @ '' / '' @ t @ '' ('' @ p @ ''%)''"
  by (simp add: MPV_AV_TIME_PATTERN_def)

lemma av_search_Some:
  assumes "regex_search MPV_AV_TIME_PATTERN s = Some g"
  shows "\<exists>pre e t p post. g = [e, t, p] \<and>
           s = pre @ ''AV: '' @ e @ '' / '' @ t @ '' ('' @ p @ ''%)'' @ post \<and>
           list_all is_digit_or_colon e \<and> list_all is_digit_or_colon t \<and> list_all is_digit p"
proof -
  from regex_search_sound [OF assms] obtain pre post
    where ok: "groups_ok MPV_AV_TIME_PATTERN g"
      and s: "s = pre @ render MPV_AV_TIME_PATTERN g @ post" by blast
  from ok obtain e t p where g: "g = [e, t, p]" and cl: "list_all is_digit_or_colon e"
    "list_all is_digit_or_colon t" "list_all is_digit p"
    unfolding groups_ok_av by blast
  from s g have "s = pre @ ''AV: '' @ e @ '' / '' @ t @ '' ('' @ p @ ''%)'' @ post"
    by (simp only: render_av append_assoc)
  with g cl show ?thesis by blast
qed

lemma av_search_iff_marker:
  "regex_search MPV_AV_TIME_PATTERN s \<noteq> None \<longleftrightarrow> contains_marker s"
proof
  assume "regex_search MPV_AV_TIME_PATTERN s \<noteq> None"
  then obtain g where "regex_search MPV_AV_TIME_PATTERN s = Some g" by auto
  from av_search_Some [OF this] show "contains_marker s"
    unfolding contains_marker_def by blast
next
  assume "contains_marker s"
  then obtain pre e t p post
    where s: "s = pre @ ''AV: '' @ e @ '' / '' @ t @ '' ('' @ p @ ''%)'' @ post"
      and cl: "list_all is_digit_or_colon e" "list_all is_digit_or_colon t" "list_all is_digit p"
    unfolding contains_marker_def by blast
  from cl have ok: "groups_ok MPV_AV_TIME_PATTERN [e, t, p]"
    unfolding groups_ok_av by blast
  have "s = pre @ render MPV_AV_TIME_PATTERN [e, t, p] @ post"
    using s by (simp only: render_av append_assoc)
  with regex_search_complete [OF ok, of pre post]
  show "regex_search MPV_AV_TIME_PATTERN s \<noteq> None" by simp
qed

lemma rev_dropWhile_takeWhile:
  "rev (dropWhile P (rev xs)) @ rev (takeWhile P (rev xs)) = xs"
  by (metis rev_append rev_rev_ident takeWhile_dropWhile_id)

lemma strip_decomp: "\<exists>a b. s = a @ strip s @ b"
proof -
  let ?d = "dropWhile is_space s"
  have "?d = strip s @ rev (takeWhile is_space (rev ?d))"
    unfolding strip_def by (rule rev_dropWhile_takeWhile [symmetric])
  moreover have "s = takeWhile is_space s @ ?d" by simp
  ultimately have "s = takeWhile is_space s @ strip s @ rev (takeWhile is_space (rev ?d))"
    by simp
  then show ?thesis by blast
qed

lemma strip_keeps_middle:
  assumes "\<not> is_space x" and "\<not> is_space y"
  shows "strip (pre @ x # mid @ y # post) =
           dropWhile is_space pre @ x # mid @ y # rev (dropWhile is_space (rev post))"
proof -
  have "dropWhile is_space (pre @ x # mid @ y # post) = dropWhile is_space pre @ x # mid @ y # post"
    using assms(1) by (simp add: dropWhile_append3)
  moreover have "rev (dropWhile is_space pre @ x # mid @ y # post) =
      rev post @ y # (rev mid @ x # rev (dropWhile is_space pre))" by simp
  moreover have "dropWhile is_space (rev post @ y # (rev mid @ x # rev (dropWhile is_space pre))) =
      dropWhile is_space (rev post) @ y # (rev mid @ x # rev (dropWhile is_space pre))"
    using assms(2) by (rule dropWhile_append3)
  ultimately show ?thesis by (simp add: strip_def)
qed

lemma contains_marker_strip: "contains_marker (strip s) \<longleftrightarrow> contains_marker s"
proof
  assume "contains_marker (strip s)"
  then obtain pre e t p post
    where m: "strip s = pre @ ''AV: '' @ e @ '' / '' @ t @ '' ('' @ p @ ''%)'' @ post"
      and cl: "list_all is_digit_or_colon e" "list_all is_digit_or_colon t" "list_all is_digit p"
    unfolding contains_marker_def by blast
  obtain a b where "s = a @ strip s @ b" using strip_decomp by blast
  with m have "s = (a @ pre) @ ''AV: '' @ e @ '' / '' @ t @ '' ('' @ p @ ''%)'' @ (post @ b)"
    by simp
  with cl show "contains_marker s" unfolding contains_marker_def by blast
next
  assume "contains_marker s"
  then obtain pre e t p post
    where m: "s = pre @ ''AV: '' @ e @ '' / '' @ t @ '' ('' @ p @ ''%)'' @ post"
      and cl: "list_all is_digit_or_colon e" "list_all is_digit_or_colon t" "list_all is_digit p"
    unfolding contains_marker_def by blast
  let ?mid = "''V: '' @ e @ '' / '' @ t @ '' ('' @ p @ ''%''"
  have s: "s = pre @ CHR ''A'' # ?mid @ CHR '')'' # post" using m by simp
  have "\<not> is_space CHR ''A''" "\<not> is_space CHR '')''" by (simp_all add: is_space_def)
  from strip_keeps_middle [OF this, of pre ?mid post]
  have "strip s = dropWhile is_space pre @ ''AV: '' @ e @ '' / '' @ t @ '' ('' @ p @ ''%)''
                    @ rev (dropWhile is_space (rev post))"
    unfolding s by simp
  with cl show "contains_marker (strip s)" unfolding contains_marker_def by blast
qed

lemma line_matches_iff_marker: "line_matches line \<longleftrightarrow> contains_marker line"
  unfolding line_matches_def av_search_iff_marker contains_marker_strip ..

subsection \<open>The scan over the output lines\<close>

lemma not_line_matches_empty: "\<not> line_matches []"
  by (simp add: line_matches_def strip_def MPV_AV_TIME_PATTERN_def)

lemma scan_lines_rev:
  "scan_lines (rev ls) =
     (case filter line_matches ls of [] \<Rightarrow> (None, None) | m # ms \<Rightarrow> times_of_line (last (m # ms)))"
proof (induction ls rule: rev_induct)
  case Nil
  show ?case by simp
next
  case (snoc l ls)
  show ?case
  proof (cases "line_matches l")
    case True
    then obtain g where g: "regex_search MPV_AV_TIME_PATTERN (strip l) = Some g"
      by (auto simp: line_matches_def)
    have "filter line_matches (ls @ [l]) = filter line_matches ls @ [l]"
      using True by simp
    then show ?thesis using g
      by (cases "filter line_matches ls") (simp_all add: times_of_line_def)
  next
    case False
    then have "regex_search MPV_AV_TIME_PATTERN (strip l) = None"
      by (simp add: line_matches_def)
    then show ?thesis using False snoc.IH by simp
  qed
qed

lemma scan_lines_first_hit:
  "line_matches line \<Longrightarrow> scan_lines (line # rest) = times_of_line line"
  by (auto simp: line_matches_def times_of_line_def)

lemma times_of_line_marker:
  assumes "contains_marker line"
  shows "\<exists>pre e t p post. times_of_line line = (Some e, Some t) \<and>
           strip line = pre @ ''AV: '' @ e @ '' / '' @ t @ '' ('' @ p @ ''%)'' @ post \<and>
           list_all is_digit_or_colon e \<and> list_all is_digit_or_colon t \<and> list_all is_digit p"
proof -
  from assms have "line_matches line" by (simp add: line_matches_iff_marker)
  then obtain g where g: "regex_search MPV_AV_TIME_PATTERN (strip line) = Some g"
    by (auto simp: line_matches_def)
  from av_search_Some [OF g] obtain pre e t p post where "g = [e, t, p]"
    and "strip line = pre @ ''AV: '' @ e @ '' / '' @ t @ '' ('' @ p @ ''%)'' @ post"
    and "list_all is_digit_or_colon e" "list_all is_digit_or_colon t" "list_all is_digit p"
    by blast
  moreover from this g have "times_of_line line = (Some e, Some t)"
    by (simp add: times_of_line_def)
  ultimately show ?thesis by blast
qed

lemmas av_eval_defs = line_matches_iff_marker [symmetric] line_matches_def times_of_line_def
  strip_def is_space_def MPV_AV_TIME_PATTERN_def is_digit_def is_digit_or_colon_def

section \<open>The guards of \<open>play\<close>\<close>

text \<open>
  C1. On a mobile environment, a request whose URL matches the torrent pattern and a
  request with the synchronized-playback flag both fail, and no process is
  spawned: the list of spawned processes is empty. The module raises \<open>ViuError\<close>
  for every failure; the two messages of the unsupported-environment kind are
  \<open>Unable to play torrents on termux\<close> and \<open>Unable to play with syncplay on termux\<close>.
\<close>

theorem play_mobile_guards:
  assumes "is_running_in_termux w"
    and "re_match (TORRENT_REGEX w) (url params) \<or> syncplay params"
  shows "play w self params =
           ([], Inl (ViuError (if re_match (TORRENT_REGEX w) (url params)
                               then ''Unable to play torrents on termux''
                               else ''Unable to play with syncplay on termux'')))"
  using assms unfolding play_def by auto

theorem play_mobile_guards_witness:
  "play (sample_world True [] []) (MpvPlayer_init (sample_world True [] []) sample_config)
        (rich_params ''magnet:?xt=urn:btih:abc'' False)
     = ([], Inl (ViuError ''Unable to play torrents on termux'')) \<and>
   play (sample_world True [] []) (MpvPlayer_init (sample_world True [] []) sample_config)
        (rich_params ''https://e.org/v.mkv'' True)
     = ([], Inl (ViuError ''Unable to play with syncplay on termux''))"
  using play_mobile_guards
          [of "sample_world True [] []" "rich_params ''magnet:?xt=urn:btih:abc'' False"
              "MpvPlayer_init (sample_world True [] []) sample_config"]
        play_mobile_guards
          [of "sample_world True [] []" "rich_params ''https://e.org/v.mkv'' True"
              "MpvPlayer_init (sample_world True [] []) sample_config"]
  by (simp add: sample_defs)

text \<open>
  C2. On a desktop environment, when the player executable was not found, \<open>play\<close> fails
  with \<open>MPV executable not found in PATH.\<close> whatever the request is, torrent URL and
  synchronized playback included, and spawns nothing.
\<close>

theorem play_desktop_no_executable:
  assumes "\<not> is_running_in_termux w" and "\<not> truthy (executable self)"
  shows "play w self params = ([], Inl (ViuError ''MPV executable not found in PATH.''))"
  using assms unfolding play_def play_on_desktop_def by simp

theorem play_desktop_no_executable_witness:
  "play (sample_world False [''webtorrent'', ''syncplay''] [])
        (MpvPlayer_init (sample_world False [''webtorrent'', ''syncplay''] []) sample_config)
        (rich_params ''magnet:?xt=urn:btih:abc'' True)
     = ([], Inl (ViuError ''MPV executable not found in PATH.''))"
  using play_desktop_no_executable
          [of "sample_world False [''webtorrent'', ''syncplay''] []"
              "MpvPlayer_init (sample_world False [''webtorrent'', ''syncplay''] []) sample_config"
              "rich_params ''magnet:?xt=urn:btih:abc'' True"]
  by (simp add: sample_defs)

section \<open>Mobile dispatch\<close>

text \<open>
  C8. A mobile request that passes the torrent and the synchronized-playback guard
  starts one intent: its target component is the video application if the URL matches
  the video-hosting pattern and the generic player application otherwise. In both
  cases the result holds the episode only, both time fields are \<open>None\<close>.
\<close>

theorem play_mobile_intent:
  assumes "is_running_in_termux w"
    and "\<not> re_match (TORRENT_REGEX w) (url params)"
    and "\<not> syncplay params"
  shows "play w self params =
           ([Run (map Some
                    [''nohup'', ''am'', ''start'', ''--user'', ''0'', ''-a'',
                     ''android.intent.action.VIEW'', ''-d'', url params, ''-n'',
                     (if re_match (YOUTUBE_REGEX w) (url params)
                      then ''com.google.android.youtube/.UrlActivity''
                      else ''is.xyz.mpv/.MPVActivity'')])
                 (get_clean_env w)],
            Inr \<lparr>episode = PlayerParams.episode params, total_time = None,
                 stop_time = None\<rparr>)"
  using assms unfolding play_def play_on_mobile_def PlayerResult_of_def by simp

theorem play_mobile_intent_witness:
  "play (sample_world True [] []) (MpvPlayer_init (sample_world True [] []) sample_config)
        (rich_params ''https://youtu.be/abc'' False)
     = ([Run (map Some
                [''nohup'', ''am'', ''start'', ''--user'', ''0'', ''-a'',
                 ''android.intent.action.VIEW'', ''-d'', ''https://youtu.be/abc'', ''-n'',
                 ''com.google.android.youtube/.UrlActivity''])
             [(''PATH'', ''/usr/bin'')]],
        Inr \<lparr>episode = ''7'', total_time = None, stop_time = None\<rparr>) \<and>
   play (sample_world True [] []) (MpvPlayer_init (sample_world True [] []) sample_config)
        (rich_params ''https://e.org/v.mkv'' False)
     = ([Run (map Some
                [''nohup'', ''am'', ''start'', ''--user'', ''0'', ''-a'',
                 ''android.intent.action.VIEW'', ''-d'', ''https://e.org/v.mkv'', ''-n'',
                 ''is.xyz.mpv/.MPVActivity''])
             [(''PATH'', ''/usr/bin'')]],
        Inr \<lparr>episode = ''7'', total_time = None, stop_time = None\<rparr>)"
  using play_mobile_intent
          [of "sample_world True [] []" "rich_params ''https://youtu.be/abc'' False"
              "MpvPlayer_init (sample_world True [] []) sample_config"]
        play_mobile_intent
          [of "sample_world True [] []" "rich_params ''https://e.org/v.mkv'' False"
              "MpvPlayer_init (sample_world True [] []) sample_config"]
  by (simp add: sample_defs)

section \<open>Desktop delegation\<close>

text \<open>
  C5, as stated, fails: it promises the missing-dependency failure for every desktop
  request with a torrent URL when the torrent tool is absent. With the player
  executable absent as well, \<open>play\<close> fails earlier, with the executable message.
\<close>

theorem play_desktop_torrent_counterexample:
  "\<not> is_running_in_termux (sample_world False [] []) \<and>
   re_search (TORRENT_REGEX (sample_world False [] [])) (url (bare_params ''magnet:?xt=urn:btih:abc'' False)) \<and>
   which (sample_world False [] []) ''webtorrent'' = None \<and>
   play (sample_world False [] []) (MpvPlayer_init (sample_world False [] []) bare_config)
        (bare_params ''magnet:?xt=urn:btih:abc'' False)
     = ([], Inl (ViuError ''MPV executable not found in PATH.'')) \<and>
   play (sample_world False [] []) (MpvPlayer_init (sample_world False [] []) bare_config)
        (bare_params ''magnet:?xt=urn:btih:abc'' False)
     \<noteq> ([], Inl (ViuError ''Please install webtorrent-cli''))"
  by (simp add: play_def play_on_desktop_def sample_defs)

text \<open>
  C5, amended. For every desktop request whose URL contains the torrent pattern, when
  the player executable was found: if the torrent tool is absent, \<open>play\<close> fails with
  \<open>Please install webtorrent-cli\<close> and spawns nothing; if it is present, the tool is run
  with the URL and \<open>--mpv\<close>, followed by \<open>--player-args\<close> and the option tokens only when
  there are option tokens, and the result holds the episode only.
\<close>

theorem play_desktop_torrent:
  assumes "\<not> is_running_in_termux w"
    and "truthy (executable self)"
    and "re_search (TORRENT_REGEX w) (url params)"
  shows "play w self params =
           (if \<not> truthy (which w ''webtorrent'')
            then ([], Inl (ViuError ''Please install webtorrent-cli''))
            else ([Run ([which w ''webtorrent'', Some (url params), Some ''--mpv'']
                        @ (if create_mpv_cli_options self params = [] then []
                           else Some ''--player-args''
                                # map Some (create_mpv_cli_options self params)))
                       (get_clean_env w)],
                  Inr \<lparr>episode = PlayerParams.episode params, total_time = None,
                       stop_time = None\<rparr>))"
  using assms
  unfolding play_def play_on_desktop_def stream_on_desktop_with_webtorrent_cli_def
    PlayerResult_of_def Let_def
  by simp

theorem play_desktop_torrent_witness:
  "play (sample_world False [''mpv''] []) (MpvPlayer_init (sample_world False [''mpv''] []) sample_config)
        (rich_params ''magnet:?xt=urn:btih:abc'' False)
     = ([], Inl (ViuError ''Please install webtorrent-cli'')) \<and>
   play (sample_world False [''mpv'', ''webtorrent''] [])
        (MpvPlayer_init (sample_world False [''mpv'', ''webtorrent''] []) bare_config)
        (bare_params ''magnet:?xt=urn:btih:abc'' False)
     = ([Run (map Some [''/usr/bin/webtorrent'', ''magnet:?xt=urn:btih:abc'', ''--mpv''])
             [(''PATH'', ''/usr/bin'')]],
        Inr \<lparr>episode = ''7'', total_time = None, stop_time = None\<rparr>) \<and>
   play (sample_world False [''mpv'', ''webtorrent''] [])
        (MpvPlayer_init (sample_world False [''mpv'', ''webtorrent''] []) sample_config)
        (bare_params ''magnet:?xt=urn:btih:abc'' False)
     = ([Run (map Some [''/usr/bin/webtorrent'', ''magnet:?xt=urn:btih:abc'', ''--mpv'',
                        ''--player-args'', ''--fs'', ''--no-terminal''])
             [(''PATH'', ''/usr/bin'')]],
        Inr \<lparr>episode = ''7'', total_time = None, stop_time = None\<rparr>)"
  using play_desktop_torrent
          [of "sample_world False [''mpv''] []"
              "MpvPlayer_init (sample_world False [''mpv''] []) sample_config"
              "rich_params ''magnet:?xt=urn:btih:abc'' False"]
        play_desktop_torrent
          [of "sample_world False [''mpv'', ''webtorrent''] []"
              "MpvPlayer_init (sample_world False [''mpv'', ''webtorrent''] []) bare_config"
              "bare_params ''magnet:?xt=urn:btih:abc'' False"]
        play_desktop_torrent
          [of "sample_world False [''mpv'', ''webtorrent''] []"
              "MpvPlayer_init (sample_world False [''mpv'', ''webtorrent''] []) sample_config"
              "bare_params ''magnet:?xt=urn:btih:abc'' False"]
  by (simp add: sample_defs create_mpv_cli_options_def)

text \<open>
  C3, as stated, fails: it promises the call of the sync tool for every desktop
  request with the synchronized-playback flag, a URL without the torrent pattern and
  the sync tool installed. With the player executable absent, \<open>play\<close> fails before it
  looks for the sync tool.
\<close>

theorem play_desktop_syncplay_counterexample:
  "\<not> is_running_in_termux (sample_world False [''syncplay''] []) \<and>
   syncplay (bare_params ''https://e.org/v.mkv'' True) \<and>
   \<not> re_search (TORRENT_REGEX (sample_world False [''syncplay''] []))
        (url (bare_params ''https://e.org/v.mkv'' True)) \<and>
   which (sample_world False [''syncplay''] []) ''syncplay'' = Some ''/usr/bin/syncplay'' \<and>
   play (sample_world False [''syncplay''] [])
        (MpvPlayer_init (sample_world False [''syncplay''] []) bare_config)
        (bare_params ''https://e.org/v.mkv'' True)
     = ([], Inl (ViuError ''MPV executable not found in PATH.''))"
  by (simp add: play_def play_on_desktop_def sample_defs)

text \<open>
  C3, amended. For every desktop request with the synchronized-playback flag and a URL
  without the torrent pattern, when the player executable and the sync tool were
  found, the sync tool is run with a command line that begins with the tool and the
  URL; when the request has option tokens, the separator \<open>--\<close> follows and the option
  tokens end the command line. The result holds the episode only. What stands between
  the separator and the option tokens, and whether the separator is there when the
  request has no option tokens, is left open here.
\<close>

theorem play_desktop_syncplay:
  assumes "\<not> is_running_in_termux w"
    and "truthy (executable self)"
    and "\<not> re_search (TORRENT_REGEX w) (url params)"
    and "syncplay params"
    and "truthy (which w ''syncplay'')"
  shows "\<exists>rest.
           play w self params =
             ([Run ([which w ''syncplay'', Some (url params)] @ rest) (get_clean_env w)],
              Inr \<lparr>episode = PlayerParams.episode params, total_time = None,
                   stop_time = None\<rparr>) \<and>
           ((create_mpv_cli_options self params = [] \<and> rest = []) \<or>
            (\<exists>mid. rest = Some ''--'' # mid @ map Some (create_mpv_cli_options self params)))"
proof -
  let ?mid = "[executable self, Some (''--config-dir='' @ mpv_config_dir w), Some (url params)]"
  have "play w self params =
          ([Run ([which w ''syncplay'', Some (url params)]
                 @ (Some ''--'' # ?mid @ map Some (create_mpv_cli_options self params)))
                (get_clean_env w)],
           Inr \<lparr>episode = PlayerParams.episode params, total_time = None,
                stop_time = None\<rparr>)"
    using assms
    unfolding play_def play_on_desktop_def stream_on_desktop_with_syncplay_def
      base_mpv_args_def PlayerResult_of_def Let_def
    by simp
  then show ?thesis by blast
qed

theorem play_desktop_syncplay_witness:
  "\<exists>rest.
     play (sample_world False [''mpv'', ''syncplay''] [])
          (MpvPlayer_init (sample_world False [''mpv'', ''syncplay''] []) sample_config)
          (bare_params ''https://e.org/v.mkv'' True)
       = ([Run (map Some [''/usr/bin/syncplay'', ''https://e.org/v.mkv''] @ rest)
               [(''PATH'', ''/usr/bin'')]],
          Inr \<lparr>episode = ''7'', total_time = None, stop_time = None\<rparr>) \<and>
     (\<exists>mid. rest = Some ''--'' # mid @ map Some [''--fs'', ''--no-terminal''])"
  using play_desktop_syncplay
          [of "sample_world False [''mpv'', ''syncplay''] []"
              "MpvPlayer_init (sample_world False [''mpv'', ''syncplay''] []) sample_config"
              "bare_params ''https://e.org/v.mkv'' True"]
  by (simp add: sample_defs create_mpv_cli_options_def)

section \<open>The control-channel launch\<close>

text \<open>
  C4, as stated, fails: the documented command line puts \<open>--config-dir\<close> right after
  the player, before the three control-channel tokens. The command that
  \<open>play_with_ipc\<close> builds is a different one.
\<close>

theorem play_with_ipc_config_dir_first_counterexample:
  "play_with_ipc (sample_world False [''mpv''] [])
        (MpvPlayer_init (sample_world False [''mpv''] []) bare_config)
        (bare_params ''https://e.org/v.mkv'' False) ''/tmp/viu.sock''
     = Popen (map Some
                [''/usr/bin/mpv'', ''--input-ipc-server=/tmp/viu.sock'', ''--idle=yes'',
                 ''--force-window=yes'', ''--config-dir=/home/u/.config/mpv'',
                 ''https://e.org/v.mkv''])
             [(''PATH'', ''/usr/bin'')] \<and>
   play_with_ipc (sample_world False [''mpv''] [])
        (MpvPlayer_init (sample_world False [''mpv''] []) bare_config)
        (bare_params ''https://e.org/v.mkv'' False) ''/tmp/viu.sock''
     \<noteq> Popen (map Some
                [''/usr/bin/mpv'', ''--config-dir=/home/u/.config/mpv'',
                 ''--input-ipc-server=/tmp/viu.sock'', ''--idle=yes'', ''--force-window=yes'',
                 ''https://e.org/v.mkv''])
              [(''PATH'', ''/usr/bin'')]"
  by (simp add: play_with_ipc_def pre_args_of_def create_mpv_cli_options_def
        mpv_config_dir_def sample_defs)

text \<open>
  C4, amended. For every request and control-channel path, \<open>play_with_ipc\<close> starts,
  after the configured command prefix, the player with \<open>--input-ipc-server=<path>\<close>,
  \<open>--idle=yes\<close>, \<open>--force-window=yes\<close>, then \<open>--config-dir=<dir>\<close>, then the URL, then
  the option tokens of the request.
\<close>

theorem play_with_ipc_command_line:
  "play_with_ipc w self params socket_path =
     Popen (map Some (pre_args_of self)
            @ [executable self,
               Some (''--input-ipc-server='' @ socket_path),
               Some ''--idle=yes'',
               Some ''--force-window=yes'',
               Some (''--config-dir='' @ expanduser w ''~/.config/mpv''),
               Some (url params)]
            @ map Some (create_mpv_cli_options self params))
           (get_clean_env w)"
  unfolding play_with_ipc_def mpv_config_dir_def by simp

text \<open>
  C10. \<open>play_with_ipc\<close> has no failure result at all, so it cannot fail with the
  executable message. When \<open>mpv\<close> is not on the search path, the player built by
  \<open>__init__\<close> holds \<open>None\<close>, and the command handed to \<open>Popen\<close> is the configured
  prefix followed by \<open>None\<close> as the first token of the player's command line.
\<close>

theorem play_with_ipc_no_discovery_check:
  assumes "which w ''mpv'' = None"
  shows "\<exists>rest. play_with_ipc w (MpvPlayer_init w cfg) params socket_path =
           Popen (map Some (pre_args_of (MpvPlayer_init w cfg)) @ None # rest)
                 (get_clean_env w)"
  using assms unfolding play_with_ipc_def MpvPlayer_init_def by simp

theorem play_with_ipc_no_discovery_check_witness:
  "\<exists>rest. play_with_ipc (sample_world False [] []) (MpvPlayer_init (sample_world False [] []) sample_config)
        (rich_params ''https://e.org/v.mkv'' False) ''/tmp/viu.sock''
     = Popen (None # rest) [(''PATH'', ''/usr/bin'')]"
  using play_with_ipc_no_discovery_check
          [of "sample_world False [] []" sample_config
              "rich_params ''https://e.org/v.mkv'' False" "''/tmp/viu.sock''"]
  by (simp add: sample_defs pre_args_of_def)

section \<open>The argument builder\<close>

text \<open>
  C6. The option tokens are a function of the request and the configuration alone,
  and they come in this order: one header flag with all pairs \<open>key:value\<close> joined by
  commas if there are headers, one flag per subtitle path in the order of the input,
  the start-time flag if set, the title flag if set, and last the pieces of the
  configured extra arguments, cut at the commas, in their order.
\<close>

theorem create_mpv_cli_options_tokens:
  "create_mpv_cli_options self params =
     (if truthy (headers params)
      then [''--http-header-fields='' @
            join '','' (map (\<lambda>(k, v). k @ '':'' @ v) (the (headers params)))]
      else [])
     @ map (\<lambda>sub. ''--sub-file='' @ sub) (case subtitles params of None \<Rightarrow> [] | Some ss \<Rightarrow> ss)
     @ (if truthy (start_time params) then [''--start='' @ the (start_time params)] else [])
     @ (if truthy (title params) then [''--title='' @ the (title params)] else [])
     @ (if truthy (args (config self)) then split_on CHR '','' (the (args (config self))) else [])
   \<and> (\<forall>self'. config self' = config self \<longrightarrow>
          create_mpv_cli_options self' params = create_mpv_cli_options self params)"
  unfolding create_mpv_cli_options_def Let_def foldl_append_each
  by (cases "subtitles params") simp_all

theorem create_mpv_cli_options_tokens_witness:
  "create_mpv_cli_options (MpvPlayer_init (sample_world False [''mpv''] []) sample_config)
        (rich_params ''https://e.org/v.mkv'' False)
     = [''--http-header-fields=Referer:https://a.example,User-Agent:viu'',
        ''--sub-file=en.srt'', ''--sub-file=de.srt'', ''--start=00:01:30'',
        ''--title=Episode 7'', ''--fs'', ''--no-terminal''] \<and>
   create_mpv_cli_options (MpvPlayer_init (sample_world True [] []) sample_config)
        (rich_params ''https://e.org/v.mkv'' False)
     = create_mpv_cli_options (MpvPlayer_init (sample_world False [''mpv''] []) sample_config)
        (rich_params ''https://e.org/v.mkv'' False)"
  using create_mpv_cli_options_tokens
          [of "MpvPlayer_init (sample_world False [''mpv''] []) sample_config"
              "rich_params ''https://e.org/v.mkv'' False"]
  by (simp add: sample_defs)

section \<open>The progress parser\<close>

text \<open>
  C7. For every text, the parser returns the times of the last line, in the order of
  the text, that contains the marker, and \<open>(None, None)\<close> if no line contains it; it is
  a total function, so it never raises. The scan runs over the reversed lines and
  its first hit decides: the lines after it in the scan are not looked at.
\<close>

theorem parse_av_time_last_matching_line:
  "parse_av_time text =
     (case filter contains_marker (split_on CHR 0x0A text) of
        [] \<Rightarrow> (None, None)
      | m # ms \<Rightarrow> times_of_line (last (m # ms))) \<and>
   (\<forall>line rest. contains_marker line \<longrightarrow> scan_lines (line # rest) = times_of_line line)"
proof -
  have eq: "contains_marker = line_matches"
    by (rule ext) (simp add: line_matches_iff_marker)
  show ?thesis
  proof (cases "text = []")
    case True
    then show ?thesis unfolding eq
      by (simp add: parse_av_time_def not_line_matches_empty scan_lines_first_hit
            del: scan_lines.simps)
  next
    case False
    then show ?thesis unfolding eq
      by (simp add: parse_av_time_def scan_lines_rev scan_lines_first_hit
            del: scan_lines.simps)
  qed
qed

theorem parse_av_time_last_matching_line_witness:
  "parse_av_time sample_output = (Some ''00:02:30'', Some ''00:10:00'') \<and>
   parse_av_time ''Playing: v.mkv'' = (None, None) \<and>
   scan_lines [''AV: 00:02:30 / 00:10:00 (25%)'', ''AV: 00:01:00 / 00:10:00 (10%)'']
     = (Some ''00:02:30'', Some ''00:10:00'')"
  using parse_av_time_last_matching_line [of sample_output]
    parse_av_time_last_matching_line [of "''Playing: v.mkv''"]
  by (simp add: sample_output_def av_eval_defs)

section \<open>The two torrent guards\<close>




end
